theory Spec2Isabelle
  imports Main
begin

section \<open>The poll loop's message de-duplication (scripts/fix_bigbrain_duplication.py)\<close>

text \<open>
  The patch installs the TypeScript block \<open>new_processing\<close> into the agent's poll loop.
  The block reads and writes three pieces of module state: \<open>lastProcessedTimestamp\<close>,
  the \<open>Set<string>\<close> \<open>processedMessageIds\<close>, and the context/response pipeline it calls
  (\<open>contextManager.processMessages\<close>, \<open>checkForRenameCommand\<close>, \<open>shouldRespond\<close>).

  A JavaScript \<open>Set\<close> iterates in insertion order, \<open>add\<close> of a member changes nothing and
  \<open>delete\<close> removes the member: it is modelled as the list of its members, oldest first.
\<close>

record message =
  id_msg :: string
  timestamp :: string
  author :: string
  message :: string
  authorType :: string

record context_message =
  cm_author :: string
  cm_message :: string
  cm_authorType :: string

definition set_has :: "string list \<Rightarrow> string \<Rightarrow> bool" where
  "set_has s x = (x \<in> set s)"

definition set_add :: "string \<Rightarrow> string list \<Rightarrow> string list" where
  "set_add x s = (if x \<in> set s then s else s @ [x])"

definition set_delete :: "string \<Rightarrow> string list \<Rightarrow> string list" where
  "set_delete x s = filter (\<lambda>y. y \<noteq> x) s"

text \<open>
  Every effect of the block on something other than the two variables is recorded, in
  program order, in \<open>events\<close>: the \<open>add\<close> and \<open>delete\<close> calls on the set and the three
  calls into the pipeline. (\<open>console.log\<close> is left out.)
\<close>

datatype event =
    SetAdd string
  | SetDelete string
  | ProcessMessages "context_message list"
  | CheckForRenameCommand "message list"
  | ShouldRespond "message list"

record agent =
  lastProcessedTimestamp :: "string option"
  processedMessageIds :: "string list"
  events :: "event list"

definition mark_processed :: "message \<Rightarrow> agent \<Rightarrow> agent" where
  "mark_processed m a =
     a\<lparr>processedMessageIds := set_add (id_msg m) (processedMessageIds a),
       events := events a @ [SetAdd (id_msg m)]\<rparr>"

definition delete_processed :: "string \<Rightarrow> agent \<Rightarrow> agent" where
  "delete_processed i a =
     a\<lparr>processedMessageIds := set_delete i (processedMessageIds a),
       events := events a @ [SetDelete i]\<rparr>"

definition to_context :: "message \<Rightarrow> context_message" where
  "to_context m = \<lparr>cm_author = author m, cm_message = message m, cm_authorType = authorType m\<rparr>"

definition unprocessed :: "agent \<Rightarrow> message list \<Rightarrow> message list" where
  "unprocessed a newMessages =
     filter (\<lambda>m. \<not> set_has (processedMessageIds a) (id_msg m)) newMessages"

text \<open>
  The size bound of the patch: \<open>if (processedMessageIds.size > 100)\<close> deletes
  \<open>Array.from(processedMessageIds).slice(0, size - 100)\<close>, one \<open>delete\<close> per id.
\<close>

definition trim :: "agent \<Rightarrow> agent" where
  "trim a =
     (if length (processedMessageIds a) > 100
      then let toDelete = take (length (processedMessageIds a) - 100) (processedMessageIds a)
           in fold delete_processed toDelete a
      else a)"

text \<open>
  One pass through the block, from \<open>if (newMessages.length > 0)\<close> to the call of
  \<open>shouldRespond\<close>. With no new message the block is skipped. The response itself is
  produced inside \<open>if (await shouldRespond(unprocessedMessages))\<close>, that is after the
  last event recorded here.
\<close>

definition new_processing :: "message list \<Rightarrow> agent \<Rightarrow> agent" where
  "new_processing newMessages a =
     (if length newMessages > 0 then
        let unprocessedMessages = unprocessed a newMessages in
        if length unprocessedMessages = 0
        then a\<lparr>lastProcessedTimestamp := Some (timestamp (last newMessages))\<rparr>
        else
          let a1 = fold mark_processed unprocessedMessages a;
              a2 = trim a1;
              a3 = a2\<lparr>lastProcessedTimestamp := Some (timestamp (last newMessages))\<rparr>
          in a3\<lparr>events := events a3 @
                  [ProcessMessages (map to_context unprocessedMessages),
                   CheckForRenameCommand unprocessedMessages,
                   ShouldRespond unprocessedMessages]\<rparr>
      else a)"

definition initial_agent :: agent where
  "initial_agent = \<lparr>lastProcessedTimestamp = None, processedMessageIds = [], events = []\<rparr>"

text \<open>The poll loop over a sequence of fetched batches, oldest batch first.\<close>

definition poll :: "message list list \<Rightarrow> agent \<Rightarrow> agent" where
  "poll batches a = fold new_processing batches a"

text \<open>The messages a pipeline event hands on.\<close>

fun forwarded_ids :: "event \<Rightarrow> string list" where
  "forwarded_ids (ProcessMessages ms) = []"
| "forwarded_ids (CheckForRenameCommand ms) = map id_msg ms"
| "forwarded_ids (ShouldRespond ms) = map id_msg ms"
| "forwarded_ids (SetAdd i) = []"
| "forwarded_ids (SetDelete i) = []"

text \<open>The events a run appended to the log: those of \<open>a'\<close> after those of \<open>a\<close>.\<close>

definition new_events :: "agent \<Rightarrow> agent \<Rightarrow> event list" where
  "new_events a a' = drop (length (events a)) (events a')"

section \<open>The MCP tool handlers (scripts/fix_mcp_to_http.py)\<close>

text \<open>
  The patch replaces the \<open>case\<close> blocks of the tool handlers in \<open>src/index.ts\<close> by
  blocks that call the HTTP API first and use the in-memory \<open>store\<close> inside \<open>catch\<close>.
  The blocks \<open>new_claim\<close>, \<open>new_list_claims\<close>, \<open>new_release\<close>, \<open>new_lock\<close> and
  \<open>new_task_create\<close> are embedded below, statement by statement.
\<close>

subsection \<open>JSON values, property reads and object literals\<close>

datatype json =
    JNull
  | JBool bool
  | JNum int
  | JStr string
  | JArr "json list"
  | JObj "(string \<times> json) list"

datatype js_error = FetchFailed | BodyNotJson | TypeError

text \<open>
  \<open>data.k\<close> in JavaScript: a \<open>TypeError\<close> on \<open>null\<close>, the member on an object,
  \<open>undefined\<close> (here \<open>None\<close>) otherwise. None of the keys the handlers read is a
  built-in property of a string, number, boolean or array.
\<close>

fun get_prop :: "json \<Rightarrow> string \<Rightarrow> js_error + json option" where
  "get_prop JNull k = Inl TypeError"
| "get_prop (JObj kvs) k = Inr (map_of kvs k)"
| "get_prop (JBool b) k = Inr None"
| "get_prop (JNum n) k = Inr None"
| "get_prop (JStr s) k = Inr None"
| "get_prop (JArr xs) k = Inr None"

text \<open>
  \<open>JSON.stringify({k1: v1, ...})\<close>: a key whose value is \<open>undefined\<close> is left out. The
  text that \<open>JSON.stringify\<close> produces is kept as the JSON value it denotes.
\<close>

fun obj :: "(string \<times> json option) list \<Rightarrow> (string \<times> json) list" where
  "obj [] = []"
| "obj ((k, None) # fs) = obj fs"
| "obj ((k, Some v) # fs) = (k, v) # obj fs"

definition stringify :: "(string \<times> json option) list \<Rightarrow> json" where
  "stringify fs = JObj (obj fs)"

text \<open>What a handler returns: \<open>{ content: [{ type: 'text', text: ... }] }\<close>.\<close>

datatype tool_result = Text string | JsonText json

text \<open>\<open>!x\<close> on an optional string argument: true for \<open>undefined\<close> and for \<open>''\<close>.\<close>

definition falsy :: "string option \<Rightarrow> bool" where
  "falsy s = (case s of None \<Rightarrow> True | Some t \<Rightarrow> t = [])"

text \<open>\<open>x || d\<close> on an optional string argument.\<close>

definition or_default :: "string option \<Rightarrow> string \<Rightarrow> string" where
  "or_default s d = (case s of None \<Rightarrow> d | Some t \<Rightarrow> if t = [] then d else t)"

definition and_then :: "js_error + 'a \<Rightarrow> ('a \<Rightarrow> js_error + 'b) \<Rightarrow> js_error + 'b" where
  "and_then r f = (case r of Inl e \<Rightarrow> Inl e | Inr x \<Rightarrow> f x)"

subsection \<open>The remote backend, as seen through \<open>fetch\<close>\<close>

text \<open>
  A request is the method, the path under \<open>API_BASE\<close>, the query parameters (before
  \<open>encodeURIComponent\<close>) and the JSON body. \<open>fetch\<close> either rejects (\<open>None\<close>) or
  resolves to a response with a status and a body; \<open>res.json()\<close> rejects when the body
  is not JSON (\<open>json_body = None\<close>). The backend itself is outside the patch: it is
  the function from the request to what \<open>fetch\<close> gives.
\<close>

record http_request =
  req_method :: string
  req_path :: string
  req_query :: "(string \<times> string) list"
  req_body :: "json option"

record http_response =
  status :: nat
  json_body :: "json option"

type_synonym remote = "http_request \<Rightarrow> http_response option"

definition res_json :: "http_response option \<Rightarrow> js_error + (http_response \<times> json)" where
  "res_json r =
     (case r of
        None \<Rightarrow> Inl FetchFailed
      | Some res \<Rightarrow> (case json_body res of None \<Rightarrow> Inl BodyNotJson | Some data \<Rightarrow> Inr (res, data)))"

subsection \<open>The in-memory store\<close>

text \<open>
  Modelled from the spec: the object \<open>store\<close> that the \<open>catch\<close> blocks call. Its class is
  not among the sources; the records below have the attributes of the spec's data
  model and the fields the handlers pass in.
\<close>

record claim =
  claim_what :: string
  claim_by :: string
  claim_description :: "string option"
  claim_since :: int

record checked_claim = claim +
  stale :: bool

record lock =
  resourcePath :: string
  lockedBy :: string
  resourceType :: string
  reason :: "string option"
  acquiredAt :: int

record task =
  task_id :: nat
  title :: string
  task_description :: "string option"
  priority :: string
  task_status :: string
  createdBy :: string
  assignee :: "string option"
  tags :: "string list"
  createdAt :: int

text \<open>
  The store keeps its entries in insertion order, one per key. The staleness window is
  a configuration value of the store; timestamps are milliseconds.
\<close>

record memory_store =
  claims :: "(string \<times> claim) list"
  locks :: "(string \<times> lock) list"
  tasks :: "task list"
  staleThreshold :: int

fun upsert :: "string \<Rightarrow> 'v \<Rightarrow> (string \<times> 'v) list \<Rightarrow> (string \<times> 'v) list" where
  "upsert k v [] = [(k, v)]"
| "upsert k v ((k', v') # kvs) = (if k' = k then (k, v) # kvs else (k', v') # upsert k v kvs)"

definition remove_key :: "string \<Rightarrow> (string \<times> 'v) list \<Rightarrow> (string \<times> 'v) list" where
  "remove_key k kvs = filter (\<lambda>kv. fst kv \<noteq> k) kvs"

text \<open>
  Modelled from the spec: the staleness of a claim, which \<open>store.checkClaim\<close> and
  \<open>store.listClaims\<close> attach to what they return (the store's code is not among the
  sources). The spec: a claim is stale once its age exceeds the staleness threshold,
  computed at read time from \<open>since\<close>.
\<close>

definition is_stale :: "int \<Rightarrow> memory_store \<Rightarrow> claim \<Rightarrow> bool" where
  "is_stale now st c = (now - claim_since c > staleThreshold st)"

definition check :: "int \<Rightarrow> memory_store \<Rightarrow> claim \<Rightarrow> checked_claim" where
  "check now st c = claim.extend c (checked_claim.fields (is_stale now st c))"

text \<open>
  Modelled from the spec: \<open>store.checkClaim(what)\<close>, missing from the sources. The spec:
  returns the current claim if one exists.
\<close>

definition checkClaim :: "int \<Rightarrow> memory_store \<Rightarrow> string \<Rightarrow> checked_claim option" where
  "checkClaim now st what = map_option (check now st) (map_of (claims st) what)"

text \<open>
  Modelled from the spec: \<open>store.claim(what, by, description)\<close>, missing from the sources.
  The spec: the registry installs \<open>{what, by, since = now}\<close>, overwriting any stale
  claim; an idempotent re-claim by the same owner is a no-op on state but returns
  success. The test for a conflicting holder is the handler's own (see \<open>claim_local\<close>),
  which calls \<open>store.claim\<close> only after it.
\<close>

definition install_claim ::
  "int \<Rightarrow> memory_store \<Rightarrow> string \<Rightarrow> string \<Rightarrow> string option \<Rightarrow> claim \<times> memory_store" where
  "install_claim now st what agent descr =
     (let c = \<lparr>claim_what = what, claim_by = agent, claim_description = descr, claim_since = now\<rparr>
      in (c, st\<lparr>claims := upsert what c (claims st)\<rparr>))"

definition store_claim ::
  "int \<Rightarrow> memory_store \<Rightarrow> string \<Rightarrow> string \<Rightarrow> string option \<Rightarrow> claim \<times> memory_store" where
  "store_claim now st what agent descr =
     (case map_of (claims st) what of
        None \<Rightarrow> install_claim now st what agent descr
      | Some c \<Rightarrow>
          if claim_by c = agent then (c, st)
          else install_claim now st what agent descr)"

text \<open>
  Modelled from the spec: \<open>store.releaseClaim(what, by)\<close>, missing from the sources. The
  spec: removes the claim only if it is currently held by \<open>by\<close>; otherwise returns
  false without raising.
\<close>

definition releaseClaim :: "memory_store \<Rightarrow> string \<Rightarrow> string \<Rightarrow> bool \<times> memory_store" where
  "releaseClaim st what agent =
     (case map_of (claims st) what of
        None \<Rightarrow> (False, st)
      | Some c \<Rightarrow>
          if claim_by c = agent then (True, st\<lparr>claims := remove_key what (claims st)\<rparr>)
          else (False, st))"

text \<open>
  Modelled from the spec: \<open>store.listClaims(includeStale)\<close>, missing from the sources.
  The spec: staleness is computed at read time from \<open>since\<close> against the threshold;
  stale entries are excluded unless explicitly requested.
\<close>

definition listClaims :: "int \<Rightarrow> memory_store \<Rightarrow> bool option \<Rightarrow> checked_claim list" where
  "listClaims now st includeStale =
     filter (\<lambda>c. includeStale = Some True \<or> \<not> stale c) (map (\<lambda>kv. check now st (snd kv)) (claims st))"

text \<open>
  Modelled from the spec: \<open>store.acquireLock(resourcePath, lockedBy, resourceType, reason)\<close>,
  missing from the sources. The spec: returns the lock, or fails with
  \<open>LockHeld(currentHolder)\<close>; exclusivity is unconditional. The handler tells the two
  apart by \<open>'error' in result\<close>.
\<close>

datatype lock_result = LockHeld string | Locked lock

definition acquireLock ::
  "int \<Rightarrow> memory_store \<Rightarrow> string \<Rightarrow> string \<Rightarrow> string \<Rightarrow> string option \<Rightarrow> lock_result \<times> memory_store" where
  "acquireLock now st path agent rtype why =
     (case map_of (locks st) path of
        Some held \<Rightarrow> (LockHeld (lockedBy held), st)
      | None \<Rightarrow>
          (let l = \<lparr>resourcePath = path, lockedBy = agent, resourceType = rtype, reason = why,
                    acquiredAt = now\<rparr>
           in (Locked l, st\<lparr>locks := locks st @ [(path, l)]\<rparr>)))"

text \<open>
  Modelled from the spec: \<open>store.createTask({...})\<close>, missing from the sources. The spec:
  assigns a new unique id and stores the task with the fields given.
\<close>

definition fresh_task_id :: "task list \<Rightarrow> nat" where
  "fresh_task_id ts = Suc (fold max (map task_id ts) 0)"

definition createTask ::
  "int \<Rightarrow> memory_store \<Rightarrow> string \<Rightarrow> string option \<Rightarrow> string \<Rightarrow> string \<Rightarrow> string \<Rightarrow> string option \<Rightarrow>
   string list \<Rightarrow> task \<times> memory_store" where
  "createTask now st ttl descr prio stat creator assg tgs =
     (let t = \<lparr>task_id = fresh_task_id (tasks st), title = ttl, task_description = descr,
               priority = prio, task_status = stat, createdBy = creator, assignee = assg,
               tags = tgs, createdAt = now\<rparr>
      in (t, st\<lparr>tasks := tasks st @ [t]\<rparr>))"

subsection \<open>Store values as JSON\<close>

definition claim_json :: "checked_claim \<Rightarrow> json" where
  "claim_json c =
     stringify [(''what'', Some (JStr (claim_what c))), (''by'', Some (JStr (claim_by c))),
                (''description'', map_option JStr (claim_description c)),
                (''since'', Some (JNum (claim_since c))), (''stale'', Some (JBool (stale c)))]"

definition lock_json :: "lock \<Rightarrow> json" where
  "lock_json l =
     stringify [(''resourcePath'', Some (JStr (resourcePath l))), (''lockedBy'', Some (JStr (lockedBy l))),
                (''resourceType'', Some (JStr (resourceType l))), (''reason'', map_option JStr (reason l)),
                (''acquiredAt'', Some (JNum (acquiredAt l)))]"

definition task_json :: "task \<Rightarrow> json" where
  "task_json t =
     stringify [(''id'', Some (JNum (int (task_id t)))), (''title'', Some (JStr (title t))),
                (''description'', map_option JStr (task_description t)),
                (''priority'', Some (JStr (priority t))), (''status'', Some (JStr (task_status t))),
                (''createdBy'', Some (JStr (createdBy t))), (''assignee'', map_option JStr (assignee t)),
                (''tags'', Some (JArr (map JStr (tags t)))), (''createdAt'', Some (JNum (createdAt t)))]"

subsection \<open>The process: the store and the log of backend calls\<close>

text \<open>
  Every \<open>fetch\<close> and every call of a \<open>store\<close> method is appended to \<open>calls\<close>, in program
  order, so that what a handler touched can be read off the state it returns.
\<close>

datatype backend_call = Fetch http_request | StoreCall string

record world =
  store :: memory_store
  calls :: "backend_call list"

definition fetch :: "remote \<Rightarrow> http_request \<Rightarrow> world \<Rightarrow> http_response option \<times> world" where
  "fetch remote req w = (remote req, w\<lparr>calls := calls w @ [Fetch req]\<rparr>)"

definition store_call :: "string \<Rightarrow> world \<Rightarrow> world" where
  "store_call name w = w\<lparr>calls := calls w @ [StoreCall name]\<rparr>"

subsection \<open>\<open>new_claim\<close>: the \<open>claim\<close> action\<close>

definition claim_request :: "string \<Rightarrow> string \<Rightarrow> string option \<Rightarrow> http_request" where
  "claim_request what agentId descr =
     \<lparr>req_method = ''POST'', req_path = ''/api/claims'', req_query = [],
      req_body = Some (stringify [(''what'', Some (JStr what)), (''by'', Some (JStr agentId)),
                                 (''description'', map_option JStr descr)])\<rparr>"

text \<open>The \<open>try\<close> block after \<open>fetch\<close>: \<open>Inl\<close> is an exception, caught by \<open>catch (err)\<close>.\<close>

definition claim_try :: "http_response option \<Rightarrow> string \<Rightarrow> string \<Rightarrow> js_error + tool_result" where
  "claim_try r what agentId =
     and_then (res_json r) (\<lambda>(res, data).
       if status res = 409 then
         and_then (get_prop data ''claimedBy'') (\<lambda>claimedBy.
         and_then (get_prop data ''message'') (\<lambda>msg.
           Inr (JsonText (stringify [(''claimed'', Some (JBool False)), (''by'', claimedBy),
                                     (''message'', msg)]))))
       else Inr (JsonText (stringify [(''claimed'', Some (JBool True)), (''what'', Some (JStr what)),
                                      (''by'', Some (JStr agentId))])))"

text \<open>The \<open>catch\<close> block: the handler's test on the existing claim, then \<open>store.claim\<close>.\<close>

definition claim_local ::
  "int \<Rightarrow> string \<Rightarrow> string \<Rightarrow> string option \<Rightarrow> world \<Rightarrow> tool_result \<times> world" where
  "claim_local now what agentId descr w =
     (let existing = checkClaim now (store w) what;
          w1 = store_call ''checkClaim'' w
      in case (case existing of
                 None \<Rightarrow> None
               | Some e \<Rightarrow> if claim_by e \<noteq> agentId \<and> \<not> stale e then Some e else None) of
           Some e \<Rightarrow>
             (JsonText (stringify [(''claimed'', Some (JBool False)), (''by'', Some (JStr (claim_by e))),
                                   (''since'', Some (JNum (claim_since e)))]), w1)
         | None \<Rightarrow>
             (let (c, st') = store_claim now (store w1) what agentId descr;
                  w2 = store_call ''claim'' (w1\<lparr>store := st'\<rparr>)
              in (JsonText (stringify [(''claimed'', Some (JBool True)), (''what'', Some (JStr (claim_what c))),
                                       (''by'', Some (JStr (claim_by c)))]), w2)))"

definition new_claim ::
  "remote \<Rightarrow> int \<Rightarrow> string option \<Rightarrow> string option \<Rightarrow> string option \<Rightarrow> world \<Rightarrow> tool_result \<times> world" where
  "new_claim remote now agentId what descr w =
     (if falsy agentId \<or> falsy what then (Text ''agentId and what required'', w)
      else
        let a = or_default agentId []; wh = or_default what [];
            (r, w1) = fetch remote (claim_request wh a descr) w
        in case claim_try r wh a of
             Inr result \<Rightarrow> (result, w1)
           | Inl err \<Rightarrow> claim_local now wh a descr w1)"

subsection \<open>\<open>new_list_claims\<close>: the \<open>list-claims\<close> action\<close>

definition list_claims_request :: http_request where
  "list_claims_request =
     \<lparr>req_method = ''GET'', req_path = ''/api/claims'', req_query = [], req_body = None\<rparr>"

definition new_list_claims :: "remote \<Rightarrow> int \<Rightarrow> bool option \<Rightarrow> world \<Rightarrow> tool_result \<times> world" where
  "new_list_claims remote now includeStale w =
     (let (r, w1) = fetch remote list_claims_request w
      in case res_json r of
           Inr (res, data) \<Rightarrow> (JsonText data, w1)
         | Inl err \<Rightarrow>
             (let cs = listClaims now (store w1) includeStale;
                  w2 = store_call ''listClaims'' w1
              in (JsonText (stringify [(''claims'', Some (JArr (map claim_json cs))),
                                       (''count'', Some (JNum (int (length cs))))]), w2)))"

subsection \<open>\<open>new_release\<close>: the \<open>release\<close> action\<close>

definition release_request :: "string \<Rightarrow> string \<Rightarrow> http_request" where
  "release_request what agentId =
     \<lparr>req_method = ''DELETE'', req_path = ''/api/claims'',
      req_query = [(''what'', what), (''by'', agentId)], req_body = None\<rparr>"

definition new_release ::
  "remote \<Rightarrow> string option \<Rightarrow> string option \<Rightarrow> world \<Rightarrow> tool_result \<times> world" where
  "new_release remote agentId what w =
     (if falsy agentId \<or> falsy what then (Text ''agentId and what required'', w)
      else
        let a = or_default agentId []; wh = or_default what [];
            (r, w1) = fetch remote (release_request wh a) w
        in case res_json r of
             Inr (res, data) \<Rightarrow>
               (JsonText (stringify [(''released'', Some (JBool True)), (''what'', Some (JStr wh)),
                                     (''by'', Some (JStr a))]), w1)
           | Inl err \<Rightarrow>
               (let (released, st') = releaseClaim (store w1) wh a;
                    w2 = store_call ''releaseClaim'' (w1\<lparr>store := st'\<rparr>)
                in (JsonText (stringify [(''released'', Some (JBool released)), (''what'', Some (JStr wh)),
                                         (''by'', Some (JStr a))]), w2)))"

subsection \<open>\<open>new_lock\<close>: the \<open>lock\<close> action\<close>

text \<open>
  \<open>resourcePath\<close> and \<open>agentId\<close> are variables of the enclosing handler; the block uses
  them without a test. The request body has no \<open>resourceType\<close>.
\<close>

definition lock_request :: "string \<Rightarrow> string \<Rightarrow> string option \<Rightarrow> http_request" where
  "lock_request path agentId why =
     \<lparr>req_method = ''POST'', req_path = ''/api/locks'', req_query = [],
      req_body = Some (stringify [(''resourcePath'', Some (JStr path)), (''lockedBy'', Some (JStr agentId)),
                                 (''reason'', map_option JStr why)])\<rparr>"

definition lock_try :: "http_response option \<Rightarrow> js_error + tool_result" where
  "lock_try r =
     and_then (res_json r) (\<lambda>(res, data).
       and_then (get_prop data ''lock'') (\<lambda>l.
         Inr (JsonText (stringify [(''success'', Some (JBool True)), (''lock'', l)]))))"

text \<open>
  Modelled from the spec: the text of \<open>result.error\<close>, which the store's missing code
  builds. The spec: the failure reports the current holder.
\<close>

definition lock_error :: "string \<Rightarrow> string" where
  "lock_error holder = ''Resource is locked by '' @ holder"

definition lock_local ::
  "int \<Rightarrow> string \<Rightarrow> string \<Rightarrow> string option \<Rightarrow> string option \<Rightarrow> world \<Rightarrow> tool_result \<times> world" where
  "lock_local now path agentId rtype why w =
     (let (result, st') = acquireLock now (store w) path agentId (or_default rtype ''file-lock'') why;
          w1 = store_call ''acquireLock'' (w\<lparr>store := st'\<rparr>)
      in case result of
           LockHeld holder \<Rightarrow>
             (JsonText (stringify [(''success'', Some (JBool False)),
                                   (''error'', Some (JStr (lock_error holder)))]), w1)
         | Locked l \<Rightarrow>
             (JsonText (stringify [(''success'', Some (JBool True)), (''lock'', Some (lock_json l))]), w1))"

definition new_lock ::
  "remote \<Rightarrow> int \<Rightarrow> string \<Rightarrow> string \<Rightarrow> string option \<Rightarrow> string option \<Rightarrow> world \<Rightarrow> tool_result \<times> world" where
  "new_lock remote now path agentId rtype why w =
     (let (r, w1) = fetch remote (lock_request path agentId why) w
      in case lock_try r of
           Inr result \<Rightarrow> (result, w1)
         | Inl err \<Rightarrow> lock_local now path agentId rtype why w1)"

subsection \<open>\<open>new_task_create\<close>: the \<open>create\<close> action of the task tool\<close>

record task_args =
  arg_title :: "string option"
  arg_description :: "string option"
  arg_priority :: "string option"
  arg_createdBy :: "string option"
  arg_assignee :: "string option"
  arg_tags :: "string list option"

definition tags_or_empty :: "string list option \<Rightarrow> string list" where
  "tags_or_empty t = (case t of None \<Rightarrow> [] | Some ts \<Rightarrow> ts)"

definition task_request :: "task_args \<Rightarrow> http_request" where
  "task_request args =
     \<lparr>req_method = ''POST'', req_path = ''/api/tasks'', req_query = [],
      req_body = Some (stringify
        [(''title'', map_option JStr (arg_title args)),
         (''description'', map_option JStr (arg_description args)),
         (''priority'', Some (JStr (or_default (arg_priority args) ''medium''))),
         (''status'', Some (JStr ''todo'')),
         (''createdBy'', map_option JStr (arg_createdBy args)),
         (''assignee'', map_option JStr (arg_assignee args)),
         (''tags'', Some (JArr (map JStr (tags_or_empty (arg_tags args)))))])\<rparr>"

definition task_try :: "http_response option \<Rightarrow> js_error + tool_result" where
  "task_try r =
     and_then (res_json r) (\<lambda>(res, data).
       and_then (get_prop data ''task'') (\<lambda>t.
         Inr (JsonText (stringify [(''created'', Some (JBool True)), (''task'', t)]))))"

definition task_local :: "int \<Rightarrow> task_args \<Rightarrow> world \<Rightarrow> tool_result \<times> world" where
  "task_local now args w =
     (let (t, st') = createTask now (store w) (or_default (arg_title args) []) (arg_description args)
                       (or_default (arg_priority args) ''medium'') ''todo''
                       (or_default (arg_createdBy args) []) (arg_assignee args)
                       (tags_or_empty (arg_tags args));
          w1 = store_call ''createTask'' (w\<lparr>store := st'\<rparr>)
      in (JsonText (stringify [(''created'', Some (JBool True)), (''task'', Some (task_json t))]), w1))"

definition new_task_create :: "remote \<Rightarrow> int \<Rightarrow> task_args \<Rightarrow> world \<Rightarrow> tool_result \<times> world" where
  "new_task_create remote now args w =
     (if falsy (arg_title args) \<or> falsy (arg_createdBy args)
      then (Text ''title and createdBy required'', w)
      else
        let (r, w1) = fetch remote (task_request args) w
        in case task_try r of
             Inr result \<Rightarrow> (result, w1)
           | Inl err \<Rightarrow> task_local now args w1)"

subsection \<open>Reading a handler's result\<close>

text \<open>
  A transport failure as the handlers see it: \<open>fetch\<close> rejects, or the body of the
  response is not JSON and \<open>res.json()\<close> rejects.
\<close>

definition remote_failed :: "http_response option \<Rightarrow> bool" where
  "remote_failed r = (case r of None \<Rightarrow> True | Some res \<Rightarrow> json_body res = None)"

text \<open>The value under a key of the JSON object a handler returned, if there is one.\<close>

definition result_prop :: "tool_result \<Rightarrow> string \<Rightarrow> json option" where
  "result_prop r k =
     (case r of
        Text t \<Rightarrow> None
      | JsonText j \<Rightarrow> (case get_prop j k of Inl e \<Rightarrow> None | Inr v \<Rightarrow> v))"

text \<open>The store methods a handler called, given the state before and after.\<close>

definition store_calls :: "world \<Rightarrow> world \<Rightarrow> backend_call list" where
  "store_calls w w' =
     filter (\<lambda>c. case c of Fetch req \<Rightarrow> False | StoreCall n \<Rightarrow> True) (drop (length (calls w)) (calls w'))"

section \<open>Example states and backends\<close>

text \<open>A full de-duplication window of 100 distinct ids, and a message with a new id.\<close>

definition example_ids :: "nat \<Rightarrow> string list" where
  "example_ids n = map (\<lambda>k. replicate (Suc k) CHR ''m'') [0..<n]"

definition full_agent :: agent where
  "full_agent = \<lparr>lastProcessedTimestamp = None, processedMessageIds = example_ids 100, events = []\<rparr>"

definition next_message :: message where
  "next_message =
     \<lparr>id_msg = replicate 101 CHR ''m'', timestamp = ''t101'', author = ''u'', message = ''hi'',
      authorType = ''human''\<rparr>"

definition seen_message :: message where
  "seen_message =
     \<lparr>id_msg = ''mm'', timestamp = ''t2'', author = ''u'', message = ''hello'', authorType = ''human''\<rparr>"

text \<open>An agent that has processed the one message \<open>seen_message\<close>.\<close>

definition small_agent :: agent where
  "small_agent = \<lparr>lastProcessedTimestamp = None, processedMessageIds = [''mm''], events = []\<rparr>"

text \<open>
  A process whose store holds one claim, of \<open>module-A\<close> by \<open>X\<close> since time 5, with a
  staleness window of 30 minutes, and that has called no backend yet.
\<close>

definition claim_of_X :: claim where
  "claim_of_X =
     \<lparr>claim_what = ''module-A'', claim_by = ''X'', claim_description = None, claim_since = 5\<rparr>"

definition world_X :: world where
  "world_X =
     \<lparr>store = \<lparr>claims = [(''module-A'', claim_of_X)], locks = [], tasks = [], staleThreshold = 1800000\<rparr>,
      calls = []\<rparr>"

text \<open>A backend that cannot be reached, and backends that answer every request alike.\<close>

definition unreachable :: remote where
  "unreachable req = None"

definition answering :: "nat \<Rightarrow> json \<Rightarrow> remote" where
  "answering code data req = Some \<lparr>status = code, json_body = Some data\<rparr>"

definition claim_conflict_body :: json where
  "claim_conflict_body =
     JObj [(''claimed'', JBool False), (''claimedBy'', JStr ''X''), (''message'', JStr ''already claimed'')]"

text \<open>
  Modelled from the spec: a backend for \<open>GET /api/claims?includeStale=bool\<close> that holds a
  fresh and a stale claim and leaves the stale one out unless the request has
  \<open>includeStale=true\<close>. The backend's code is not among the sources.
\<close>

definition fresh_claim_json :: json where
  "fresh_claim_json = JObj [(''what'', JStr ''module-A''), (''by'', JStr ''X''), (''stale'', JBool False)]"

definition stale_claim_json :: json where
  "stale_claim_json = JObj [(''what'', JStr ''module-B''), (''by'', JStr ''Y''), (''stale'', JBool True)]"

definition claims_backend :: remote where
  "claims_backend req =
     (let cs = (if map_of (req_query req) ''includeStale'' = Some ''true''
                then [fresh_claim_json, stale_claim_json] else [fresh_claim_json])
      in Some \<lparr>status = 200,
               json_body = Some (JObj [(''claims'', JArr cs), (''count'', JNum (int (length cs)))])\<rparr>)"

section \<open>Properties of the de-duplication window\<close>


lemma fold_mark_ids:
  "processedMessageIds (fold mark_processed ms a) = fold set_add (map id_msg ms) (processedMessageIds a)"
  by (induction ms arbitrary: a) (simp_all add: mark_processed_def)

lemma fold_mark_ts:
  "lastProcessedTimestamp (fold mark_processed ms a) = lastProcessedTimestamp a"
  by (induction ms arbitrary: a) (simp_all add: mark_processed_def)

lemma fold_mark_events:
  "events (fold mark_processed ms a) = events a @ map (\<lambda>m. SetAdd (id_msg m)) ms"
  by (induction ms arbitrary: a) (simp_all add: mark_processed_def)

lemma fold_delete_ids:
  "processedMessageIds (fold delete_processed is a) = fold set_delete is (processedMessageIds a)"
  by (induction "is" arbitrary: a) (simp_all add: delete_processed_def)

lemma fold_delete_ts:
  "lastProcessedTimestamp (fold delete_processed is a) = lastProcessedTimestamp a"
  by (induction "is" arbitrary: a) (simp_all add: delete_processed_def)

lemma fold_delete_events:
  "events (fold delete_processed is a) = events a @ map SetDelete is"
  by (induction "is" arbitrary: a) (simp_all add: delete_processed_def)

lemma fold_set_delete: "fold set_delete xs s = filter (\<lambda>y. y \<notin> set xs) s"
proof (induction xs arbitrary: s)
  case Nil
  then show ?case by simp
next
  case (Cons x xs)
  have "filter (\<lambda>y. y \<notin> set xs) (filter (\<lambda>y. y \<noteq> x) s) = filter (\<lambda>y. y \<notin> set (x # xs)) s"
    by (induction s) auto
  with Cons show ?case by (simp add: set_delete_def)
qed

lemma filter_take_distinct:
  "distinct s \<Longrightarrow> filter (\<lambda>y. y \<notin> set (take k s)) s = drop k s"
proof (induction s arbitrary: k)
  case Nil
  then show ?case by simp
next
  case (Cons x s)
  show ?case
  proof (cases k)
    case 0
    then show ?thesis by simp
  next
    case (Suc j)
    from Cons.prems have xs: "x \<notin> set s" and ds: "distinct s" by simp_all
    have "filter (\<lambda>y. y \<notin> set (take k (x # s))) (x # s) = filter (\<lambda>y. y \<noteq> x \<and> y \<notin> set (take j s)) s"
      using Suc by simp
    also have "\<dots> = filter (\<lambda>y. y \<notin> set (take j s)) s"
      using xs by (intro filter_cong) auto
    also have "\<dots> = drop j s" using Cons.IH [OF ds] .
    finally show ?thesis using Suc by simp
  qed
qed

lemma evict_oldest:
  "distinct s \<Longrightarrow> fold set_delete (take k s) s = drop k s"
  by (simp add: fold_set_delete filter_take_distinct)

lemma set_add_distinct: "distinct s \<Longrightarrow> distinct (set_add x s)"
  by (simp add: set_add_def)

lemma fold_set_add_distinct: "distinct s \<Longrightarrow> distinct (fold set_add xs s)"
  by (induction xs arbitrary: s) (simp_all add: set_add_distinct)

lemma fold_set_add_set: "set (fold set_add xs s) = set s \<union> set xs"
  by (induction xs arbitrary: s) (auto simp: set_add_def)

lemma fold_set_add_prefix: "take (length s) (fold set_add xs s) = s \<and> length s \<le> length (fold set_add xs s)"
proof (induction xs arbitrary: s)
  case Nil
  then show ?case by simp
next
  case (Cons x xs)
  show ?case
  proof (cases "x \<in> set s")
    case True
    then have "set_add x s = s" by (simp add: set_add_def)
    then show ?thesis using Cons [of s] by simp
  next
    case False
    from Cons [of "s @ [x]"] have t: "take (Suc (length s)) (fold set_add xs (s @ [x])) = s @ [x]"
      and l: "Suc (length s) \<le> length (fold set_add xs (s @ [x]))" by simp_all
    have "take (length s) (fold set_add xs (s @ [x])) = take (length s) (take (Suc (length s)) (fold set_add xs (s @ [x])))"
      by (simp add: min_def)
    also have "\<dots> = s" by (simp add: t)
    finally have "take (length s) (fold set_add xs (s @ [x])) = s" .
    moreover have "set_add x s = s @ [x]" using False by (simp add: set_add_def)
    ultimately show ?thesis using l by simp
  qed
qed

lemma trim_ids:
  "distinct (processedMessageIds a) \<Longrightarrow>
   processedMessageIds (trim a) = drop (length (processedMessageIds a) - 100) (processedMessageIds a)"
  by (simp add: trim_def Let_def fold_delete_ids evict_oldest)

lemma trim_ts: "lastProcessedTimestamp (trim a) = lastProcessedTimestamp a"
  by (simp add: trim_def Let_def fold_delete_ts)

lemma trim_events:
  "events (trim a) = events a @ map SetDelete (take (length (processedMessageIds a) - 100) (processedMessageIds a))"
  by (simp add: trim_def Let_def fold_delete_events)

lemma new_processing_ids:
  "distinct (processedMessageIds a) \<Longrightarrow>
   processedMessageIds (new_processing b a) =
     (if unprocessed a b = [] then processedMessageIds a
      else drop (length (fold set_add (map id_msg (unprocessed a b)) (processedMessageIds a)) - 100)
             (fold set_add (map id_msg (unprocessed a b)) (processedMessageIds a)))"
  by (simp add: new_processing_def Let_def trim_ids fold_mark_ids fold_set_add_distinct unprocessed_def)



lemma new_processing_inv:
  assumes "distinct (processedMessageIds a)" "length (processedMessageIds a) \<le> 100"
  shows "distinct (processedMessageIds (new_processing b a)) \<and> length (processedMessageIds (new_processing b a)) \<le> 100"
proof -
  have "length (xs::string list) - (length xs - 100) \<le> 100" for xs by arith
  with assms show ?thesis by (simp add: new_processing_ids fold_set_add_distinct)
qed

lemma poll_inv:
  "distinct (processedMessageIds a) \<Longrightarrow> length (processedMessageIds a) \<le> 100 \<Longrightarrow>
   distinct (processedMessageIds (poll bs a)) \<and> length (processedMessageIds (poll bs a)) \<le> 100"
proof (induction bs arbitrary: a)
  case Nil
  then show ?case by (simp add: poll_def)
next
  case (Cons b bs)
  from new_processing_inv [OF Cons.prems, of b]
  have "distinct (processedMessageIds (poll bs (new_processing b a))) \<and>
        length (processedMessageIds (poll bs (new_processing b a))) \<le> 100"
    using Cons.IH by blast
  then show ?case by (simp add: poll_def)
qed

lemma unprocessed_single:
  "id_msg m \<notin> set (processedMessageIds a) \<Longrightarrow> unprocessed a [m] = [m]"
  by (simp add: unprocessed_def set_has_def)

lemma trim_ids_filter:
  "processedMessageIds (trim a) =
     filter (\<lambda>y. y \<notin> set (take (length (processedMessageIds a) - 100) (processedMessageIds a))) (processedMessageIds a)"
  by (simp add: trim_def Let_def fold_delete_ids fold_set_delete)

lemma new_processing_events:
  "events (new_processing b a) = events a @
     (if unprocessed a b = [] then []
      else map (\<lambda>m. SetAdd (id_msg m)) (unprocessed a b)
         @ map SetDelete (take (length (fold set_add (map id_msg (unprocessed a b)) (processedMessageIds a)) - 100)
                            (fold set_add (map id_msg (unprocessed a b)) (processedMessageIds a)))
         @ [ProcessMessages (map to_context (unprocessed a b)),
            CheckForRenameCommand (unprocessed a b),
            ShouldRespond (unprocessed a b)])"
  by (simp add: new_processing_def Let_def trim_events fold_mark_events fold_mark_ids unprocessed_def)

lemma new_processing_ids_filter:
  "processedMessageIds (new_processing b a) =
     (if unprocessed a b = [] then processedMessageIds a
      else filter (\<lambda>y. y \<notin> set (take (length (fold set_add (map id_msg (unprocessed a b)) (processedMessageIds a)) - 100)
                                  (fold set_add (map id_msg (unprocessed a b)) (processedMessageIds a))))
             (fold set_add (map id_msg (unprocessed a b)) (processedMessageIds a)))"
  by (simp add: new_processing_def Let_def trim_ids_filter fold_mark_ids unprocessed_def)

lemma unprocessed_unseen: "m \<in> set (unprocessed a b) \<Longrightarrow> id_msg m \<notin> set (processedMessageIds a)"
  by (simp add: unprocessed_def set_has_def)

lemma step_keeps:
  assumes i: "i \<in> set (processedMessageIds a)"
    and d: "SetDelete i \<notin> set (new_events a (new_processing b a))"
  shows "i \<in> set (processedMessageIds (new_processing b a))"
    and "\<forall>e\<in>set (new_events a (new_processing b a)). i \<notin> set (forwarded_ids e)"
proof -
  let ?u = "unprocessed a b"
  let ?added = "fold set_add (map id_msg ?u) (processedMessageIds a)"
  have ne: "new_events a (new_processing b a) =
     (if ?u = [] then []
      else map (\<lambda>m. SetAdd (id_msg m)) ?u @ map SetDelete (take (length ?added - 100) ?added)
         @ [ProcessMessages (map to_context ?u), CheckForRenameCommand ?u, ShouldRespond ?u])"
    by (simp add: new_events_def new_processing_events)
  have iu: "i \<notin> id_msg ` set ?u" using i unprocessed_unseen by blast
  show "i \<in> set (processedMessageIds (new_processing b a))"
  proof (cases "?u = []")
    case True
    then show ?thesis using i by (simp add: new_processing_ids_filter)
  next
    case False
    from d False have "i \<notin> set (take (length ?added - 100) ?added)"
      by (auto simp: ne)
    moreover have "i \<in> set ?added" using i by (simp add: fold_set_add_set)
    ultimately show ?thesis using False by (simp add: new_processing_ids_filter)
  qed
  show "\<forall>e\<in>set (new_events a (new_processing b a)). i \<notin> set (forwarded_ids e)"
    using iu by (auto simp: ne)
qed

lemma new_processing_events_extend: "events (new_processing b a) = events a @ new_events a (new_processing b a)"
  by (simp add: new_events_def new_processing_events)

lemma poll_events_extend: "events (poll bs a) = events a @ new_events a (poll bs a)"
proof (induction bs arbitrary: a)
  case Nil
  then show ?case by (simp add: poll_def new_events_def)
next
  case (Cons b bs)
  have p: "poll (b # bs) a = poll bs (new_processing b a)" by (simp add: poll_def)
  from Cons [of "new_processing b a"] new_processing_events_extend [of b a]
  have "events (poll (b # bs) a) = events a @ new_events a (new_processing b a) @ new_events (new_processing b a) (poll bs (new_processing b a))"
    by (simp add: p)
  then show ?case by (simp add: new_events_def)
qed

lemma poll_new_events_Cons:
  "new_events a (poll (b # bs) a) =
     new_events a (new_processing b a) @ new_events (new_processing b a) (poll bs (new_processing b a))"
proof -
  have p: "poll (b # bs) a = poll bs (new_processing b a)" by (simp add: poll_def)
  have "events (poll (b # bs) a) = events a @ new_events a (new_processing b a) @ new_events (new_processing b a) (poll bs (new_processing b a))"
    using poll_events_extend [of bs "new_processing b a"] new_processing_events_extend [of b a]
    by (simp add: p)
  then show ?thesis by (simp add: new_events_def)
qed

lemma poll_keeps:
  "i \<in> set (processedMessageIds a) \<Longrightarrow> SetDelete i \<notin> set (new_events a (poll bs a)) \<Longrightarrow>
   \<forall>e\<in>set (new_events a (poll bs a)). i \<notin> set (forwarded_ids e)"
proof (induction bs arbitrary: a)
  case Nil
  then show ?case by (simp add: poll_def new_events_def)
next
  case (Cons b bs)
  let ?a' = "new_processing b a"
  from Cons.prems(2) have d1: "SetDelete i \<notin> set (new_events a ?a')"
    and d2: "SetDelete i \<notin> set (new_events ?a' (poll bs ?a'))"
    by (simp_all add: poll_new_events_Cons)
  from step_keeps [OF Cons.prems(1) d1]
  have k: "i \<in> set (processedMessageIds ?a')"
    and f1: "\<forall>e\<in>set (new_events a ?a'). i \<notin> set (forwarded_ids e)" by simp_all
  from Cons.IH [OF k d2] f1 show ?case by (auto simp: poll_new_events_Cons)
qed

lemma example_ids_distinct: "distinct (example_ids n)"
proof -
  have "inj_on (\<lambda>k. replicate (Suc k) CHR ''m'') A" for A
  proof (rule inj_onI)
    fix x y assume "replicate (Suc x) CHR ''m'' = replicate (Suc y) CHR ''m''"
    then have "length (replicate (Suc x) CHR ''m'') = length (replicate (Suc y) CHR ''m'')" by (rule arg_cong)
    then show "x = y" by simp
  qed
  then show ?thesis by (simp add: example_ids_def distinct_map)
qed

lemma example_ids_length: "length (example_ids n) = n"
  by (simp add: example_ids_def)

lemma example_ids_member: "replicate k CHR ''m'' \<in> set (example_ids n) \<longleftrightarrow> 0 < k \<and> k \<le> n"
proof
  assume "replicate k CHR ''m'' \<in> set (example_ids n)"
  then obtain j where j: "j < n" and e: "replicate k CHR ''m'' = replicate (Suc j) CHR ''m''"
    by (auto simp: example_ids_def)
  from e have "length (replicate k CHR ''m'') = length (replicate (Suc j) CHR ''m'')" by (rule arg_cong)
  with j show "0 < k \<and> k \<le> n" by simp
next
  assume "0 < k \<and> k \<le> n"
  then obtain j where "k = Suc j" "j < n" by (cases k) auto
  then show "replicate k CHR ''m'' \<in> set (example_ids n)"
    by (auto simp: example_ids_def)
qed


text \<open>
  C7. From the empty window of a fresh process, and from any window of at most 100
  distinct ids, the window holds at most 100 ids after every batch and after every
  sequence of batches. The ids of the unprocessed messages are appended behind the old
  ones, in the order of their insertion, and what is left is that list without its
  oldest (size - 100) ids. In particular, a 101st distinct id evicts the single oldest
  id: 100 ids are left and the evicted one is not among them. Adding an id that is
  already in the window leaves its size unchanged.
\<close>

theorem dedup_window_bounded_fifo:
  assumes "distinct (processedMessageIds a)" and "length (processedMessageIds a) \<le> 100"
  shows "length (processedMessageIds (poll bs initial_agent)) \<le> 100
       \<and> length (processedMessageIds (poll bs a)) \<le> 100
       \<and> length (processedMessageIds (new_processing b a)) \<le> 100
       \<and> take (length (processedMessageIds a))
            (fold set_add (map id_msg (unprocessed a b)) (processedMessageIds a)) = processedMessageIds a
       \<and> processedMessageIds (new_processing b a) =
            drop (length (fold set_add (map id_msg (unprocessed a b)) (processedMessageIds a)) - 100)
              (fold set_add (map id_msg (unprocessed a b)) (processedMessageIds a))
       \<and> (length (processedMessageIds a) = 100 \<and> id_msg m \<notin> set (processedMessageIds a) \<longrightarrow>
            processedMessageIds (new_processing [m] a) = tl (processedMessageIds a) @ [id_msg m]
          \<and> length (processedMessageIds (new_processing [m] a)) = 100
          \<and> hd (processedMessageIds a) \<notin> set (processedMessageIds (new_processing [m] a)))
       \<and> (x \<in> set (processedMessageIds a) \<longrightarrow>
            length (set_add x (processedMessageIds a)) = length (processedMessageIds a))"
proof -
  let ?w = "processedMessageIds a"
  have c0: "length (processedMessageIds (poll bs initial_agent)) \<le> 100"
    using poll_inv [of initial_agent bs] by (simp add: initial_agent_def)
  have c1: "length (processedMessageIds (poll bs a)) \<le> 100"
    using poll_inv [OF assms] by simp
  have c2: "length (processedMessageIds (new_processing b a)) \<le> 100"
    using new_processing_inv [OF assms] by simp
  have c3: "take (length ?w) (fold set_add (map id_msg (unprocessed a b)) ?w) = ?w"
    using fold_set_add_prefix by simp
  have c4: "processedMessageIds (new_processing b a) =
            drop (length (fold set_add (map id_msg (unprocessed a b)) ?w) - 100)
              (fold set_add (map id_msg (unprocessed a b)) ?w)"
    using assms by (simp add: new_processing_ids)
  have c5: "processedMessageIds (new_processing [m] a) = tl ?w @ [id_msg m]
          \<and> length (processedMessageIds (new_processing [m] a)) = 100
          \<and> hd ?w \<notin> set (processedMessageIds (new_processing [m] a))"
    if l: "length ?w = 100" and n: "id_msg m \<notin> set ?w"
  proof -
    from l obtain y ys where w: "?w = y # ys" by (cases ?w) auto
    have "processedMessageIds (new_processing [m] a) = drop 1 (?w @ [id_msg m])"
      using assms(1) l n by (simp add: new_processing_ids unprocessed_single set_add_def)
    then have e: "processedMessageIds (new_processing [m] a) = ys @ [id_msg m]"
      by (simp add: w)
    have "y \<notin> set ys" using assms(1) w by simp
    moreover have "y \<noteq> id_msg m" using n w by auto
    ultimately show ?thesis using e l w by simp
  qed
  have c6: "length (set_add x ?w) = length ?w" if "x \<in> set ?w"
    using that by (simp add: set_add_def)
  from c0 c1 c2 c3 c4 c5 c6 show ?thesis by blast
qed

theorem dedup_window_bounded_fifo_witness: "distinct (processedMessageIds full_agent) \<and> length (processedMessageIds full_agent) \<le> 100
  \<and> length (processedMessageIds full_agent) = 100 \<and> id_msg next_message \<notin> set (processedMessageIds full_agent)
  \<and> ''mm'' \<in> set (processedMessageIds full_agent)
  \<and> length (processedMessageIds (poll [ [next_message] ] full_agent)) \<le> 100
  \<and> processedMessageIds (new_processing [next_message] full_agent) = tl (processedMessageIds full_agent) @ [id_msg next_message]
  \<and> length (processedMessageIds (new_processing [next_message] full_agent)) = 100
  \<and> hd (processedMessageIds full_agent) \<notin> set (processedMessageIds (new_processing [next_message] full_agent))
  \<and> length (set_add ''mm'' (processedMessageIds full_agent)) = length (processedMessageIds full_agent)"
proof -
  have d: "distinct (processedMessageIds full_agent)" by (simp add: full_agent_def example_ids_distinct)
  have l: "length (processedMessageIds full_agent) = 100" by (simp add: full_agent_def example_ids_length)
  have n: "id_msg next_message \<notin> set (processedMessageIds full_agent)"
    by (simp add: full_agent_def next_message_def example_ids_member)
  have "replicate 2 CHR ''m'' \<in> set (example_ids 100)" by (simp only: example_ids_member) simp
  moreover have "replicate 2 CHR ''m'' = ''mm''" by (simp add: numeral_2_eq_2)
  ultimately have x: "''mm'' \<in> set (processedMessageIds full_agent)" by (simp add: full_agent_def)
  have l': "length (processedMessageIds full_agent) \<le> 100" using l by simp
  from dedup_window_bounded_fifo [OF d l', of "[ [next_message] ]" "[next_message]" next_message "''mm''"] d l l' n x
  show ?thesis by blast
qed


text \<open>
  C8. One pass of the poll loop appends to the log, in this order: one \<open>add\<close> per
  unprocessed message, the evictions, and only then the three calls of the
  context/response pipeline, each with exactly the unprocessed messages. These are
  the fetched messages whose id is not in the window, so a message whose id is in the
  window is dropped, and every id handed on was added to the window before. Over any
  sequence of batches, an id that is in the window and is not evicted is never handed
  to the pipeline again.
\<close>

theorem poll_marks_before_dispatch:
  "events (new_processing b a) = events a @
     (if unprocessed a b = [] then []
      else map (\<lambda>m. SetAdd (id_msg m)) (unprocessed a b)
         @ map SetDelete (take (length (fold set_add (map id_msg (unprocessed a b)) (processedMessageIds a)) - 100)
                            (fold set_add (map id_msg (unprocessed a b)) (processedMessageIds a)))
         @ [ProcessMessages (map to_context (unprocessed a b)),
            CheckForRenameCommand (unprocessed a b),
            ShouldRespond (unprocessed a b)])
   \<and> unprocessed a b = filter (\<lambda>m. id_msg m \<notin> set (processedMessageIds a)) b
   \<and> id_msg ` set (unprocessed a b)
        \<subseteq> set (fold set_add (map id_msg (unprocessed a b)) (processedMessageIds a))
   \<and> (i \<in> set (processedMessageIds a) \<and> SetDelete i \<notin> set (new_events a (poll bs a)) \<longrightarrow>
        (\<forall>e\<in>set (new_events a (poll bs a)). i \<notin> set (forwarded_ids e)))"
  using new_processing_events [of b a] poll_keeps [of i a bs]
  by (simp add: fold_set_add_set unprocessed_def set_has_def)

theorem poll_marks_before_dispatch_witness:
  "''mm'' \<in> set (processedMessageIds small_agent)
   \<and> SetDelete ''mm'' \<notin> set (new_events small_agent (poll [ [seen_message, next_message] ] small_agent))
   \<and> events (new_processing [seen_message, next_message] small_agent) =
        [SetAdd (id_msg next_message), ProcessMessages [to_context next_message],
         CheckForRenameCommand [next_message], ShouldRespond [next_message]]
   \<and> ''mm'' \<notin> set (forwarded_ids (ShouldRespond [next_message]))"
proof -
  have "length (id_msg next_message) \<noteq> length ''mm''"
    by (simp add: next_message_def)
  then have nm: "id_msg next_message \<noteq> ''mm''" by (metis (no_types))
  have sm: "id_msg seen_message = ''mm''" by (simp add: seen_message_def)
  have w: "processedMessageIds small_agent = [''mm'']" by (simp add: small_agent_def)
  have u: "unprocessed small_agent [seen_message, next_message] = [next_message]"
    using nm by (simp add: unprocessed_def set_has_def sm w)
  have i: "''mm'' \<in> set (processedMessageIds small_agent)"
    by (simp add: small_agent_def)
  have a: "set_add (id_msg next_message) (processedMessageIds small_agent) =
           [''mm'', id_msg next_message]"
    using nm by (simp add: set_add_def w)
  have e0: "events small_agent = []" by (simp add: small_agent_def)
  from poll_marks_before_dispatch [of "[seen_message, next_message]" small_agent "''mm''"
      "[ [seen_message, next_message] ]"]
  have e: "events (new_processing [seen_message, next_message] small_agent) =
        [SetAdd (id_msg next_message), ProcessMessages [to_context next_message],
         CheckForRenameCommand [next_message], ShouldRespond [next_message]]"
    and k: "''mm'' \<in> set (processedMessageIds small_agent) \<and>
            SetDelete ''mm'' \<notin> set (new_events small_agent (poll [ [seen_message, next_message] ] small_agent)) \<longrightarrow>
            (\<forall>e\<in>set (new_events small_agent (poll [ [seen_message, next_message] ] small_agent)).
               ''mm'' \<notin> set (forwarded_ids e))"
    by (simp_all add: u a e0)
  have n: "new_events small_agent (poll [ [seen_message, next_message] ] small_agent) =
        [SetAdd (id_msg next_message), ProcessMessages [to_context next_message],
         CheckForRenameCommand [next_message], ShouldRespond [next_message]]"
    by (simp add: new_events_def poll_def e e0)
  have d: "SetDelete ''mm'' \<notin> set (new_events small_agent (poll [ [seen_message, next_message] ] small_agent))"
    by (simp add: n)
  from k i d have "''mm'' \<notin> set (forwarded_ids (ShouldRespond [next_message]))"
    by (simp add: n)
  with i d e show ?thesis by blast
qed

text \<open>
  C10. When every message of a non-empty fetched batch has an id that is already in the
  window, the pass sets \<open>lastProcessedTimestamp\<close> to the timestamp of the batch's last
  message and changes nothing else: the window is the same, and nothing is appended to
  the log, so no message reaches the context manager and no response is produced.
\<close>

theorem all_seen_batch_only_advances_timestamp:
  assumes "b \<noteq> []" and "\<forall>m\<in>set b. id_msg m \<in> set (processedMessageIds a)"
  shows "new_processing b a = a\<lparr>lastProcessedTimestamp := Some (timestamp (last b))\<rparr>
       \<and> processedMessageIds (new_processing b a) = processedMessageIds a
       \<and> events (new_processing b a) = events a"
proof -
  have "unprocessed a b = []" using assms(2) by (simp add: unprocessed_def set_has_def)
  then show ?thesis using assms(1) by (simp add: new_processing_def)
qed

theorem all_seen_batch_only_advances_timestamp_witness:
  "[seen_message] \<noteq> [] \<and> id_msg seen_message \<in> set (processedMessageIds small_agent)
   \<and> new_processing [seen_message] small_agent =
        \<lparr>lastProcessedTimestamp = Some ''t2'', processedMessageIds = [''mm''], events = []\<rparr>"
proof -
  have h1: "[seen_message] \<noteq> []" by simp
  have m: "id_msg seen_message \<in> set (processedMessageIds small_agent)"
    by (simp add: seen_message_def small_agent_def)
  then have h2: "\<forall>m\<in>set [seen_message]. id_msg m \<in> set (processedMessageIds small_agent)" by simp
  from all_seen_batch_only_advances_timestamp [OF h1 h2]
  have "new_processing [seen_message] small_agent =
        \<lparr>lastProcessedTimestamp = Some ''t2'', processedMessageIds = [''mm''], events = []\<rparr>"
    by (simp add: seen_message_def small_agent_def)
  with h1 m show ?thesis by blast
qed

section \<open>Properties of the tool handlers\<close>


lemma get_prop_fails: "get_prop data k = Inl e \<longleftrightarrow> data = JNull \<and> e = TypeError"
  by (cases data) auto

lemma new_claim_guard:
  "falsy agentId \<or> falsy what \<Longrightarrow>
   new_claim remote now agentId what descr w = (Text ''agentId and what required'', w)"
  by (simp add: new_claim_def)

lemma new_claim_run:
  "a \<noteq> [] \<Longrightarrow> wh \<noteq> [] \<Longrightarrow>
   new_claim remote now (Some a) (Some wh) descr w =
     (case claim_try (remote (claim_request wh a descr)) wh a of
        Inr result \<Rightarrow> (result, w\<lparr>calls := calls w @ [Fetch (claim_request wh a descr)]\<rparr>)
      | Inl err \<Rightarrow> claim_local now wh a descr (w\<lparr>calls := calls w @ [Fetch (claim_request wh a descr)]\<rparr>))"
  by (simp add: new_claim_def falsy_def or_default_def fetch_def)

lemma claim_try_failed: "remote_failed r \<Longrightarrow> \<exists>e. claim_try r wh a = Inl e"
  by (auto simp: remote_failed_def claim_try_def res_json_def and_then_def split: option.splits)

lemma claim_try_conflict:
  "r = Some res \<Longrightarrow> status res = 409 \<Longrightarrow> json_body res = Some data \<Longrightarrow>
   get_prop data ''claimedBy'' = Inr owner \<Longrightarrow> get_prop data ''message'' = Inr msg \<Longrightarrow>
   claim_try r wh a =
     Inr (JsonText (stringify [(''claimed'', Some (JBool False)), (''by'', owner), (''message'', msg)]))"
  by (simp add: claim_try_def res_json_def and_then_def)

lemma claim_try_Inl:
  "claim_try r wh a = Inl e \<Longrightarrow>
   remote_failed r \<or> (\<exists>res. r = Some res \<and> status res = 409 \<and> json_body res = Some JNull)"
  by (auto simp: claim_try_def res_json_def and_then_def remote_failed_def get_prop_fails
      split: option.splits if_splits sum.splits)

lemma claim_local_conflict:
  assumes "map_of (claims (store w)) wh = Some c" "claim_by c \<noteq> a" "\<not> is_stale now (store w) c"
  shows "claim_local now wh a descr w =
     (JsonText (stringify [(''claimed'', Some (JBool False)), (''by'', Some (JStr (claim_by c))),
                           (''since'', Some (JNum (claim_since c)))]),
      w\<lparr>calls := calls w @ [StoreCall ''checkClaim'']\<rparr>)"
  using assms
  by (simp add: claim_local_def checkClaim_def check_def store_call_def claim.defs checked_claim.defs)



text \<open>
  C1. For the claim action with \<open>agentId\<close> and \<open>what\<close> given: when the backend answers
  409 with a JSON body, the handler returns \<open>{claimed: false, by: data.claimedBy,
  message: data.message}\<close>, the owner the backend names, and does nothing but log the
  one \<open>fetch\<close>: the store is not read or written. A store method is called only when
  the remote call failed: \<open>fetch\<close> rejected, the body was not JSON, or the body of a 409
  was \<open>null\<close>, whose property read throws.
\<close>

theorem claim_conflict_surfaced_without_fallback:
  assumes "a \<noteq> []" and "wh \<noteq> []"
  shows "(remote (claim_request wh a descr) = Some res \<and> status res = 409 \<and> json_body res = Some data
          \<and> get_prop data ''claimedBy'' = Inr owner \<and> get_prop data ''message'' = Inr msg \<longrightarrow>
            new_claim remote now (Some a) (Some wh) descr w =
              (JsonText (stringify [(''claimed'', Some (JBool False)), (''by'', owner), (''message'', msg)]),
               w\<lparr>calls := calls w @ [Fetch (claim_request wh a descr)]\<rparr>))
       \<and> (store_calls w (snd (new_claim remote now (Some a) (Some wh) descr w)) \<noteq> [] \<longrightarrow>
            remote_failed (remote (claim_request wh a descr))
            \<or> remote (claim_request wh a descr) = Some \<lparr>status = 409, json_body = Some JNull\<rparr>)"
proof -
  let ?req = "claim_request wh a descr"
  let ?w1 = "w\<lparr>calls := calls w @ [Fetch ?req]\<rparr>"
  have run: "new_claim remote now (Some a) (Some wh) descr w =
     (case claim_try (remote ?req) wh a of
        Inr result \<Rightarrow> (result, ?w1) | Inl err \<Rightarrow> claim_local now wh a descr ?w1)"
    using assms by (rule new_claim_run)
  have p1: "new_claim remote now (Some a) (Some wh) descr w =
              (JsonText (stringify [(''claimed'', Some (JBool False)), (''by'', owner), (''message'', msg)]), ?w1)"
    if "remote ?req = Some res" "status res = 409" "json_body res = Some data"
       "get_prop data ''claimedBy'' = Inr owner" "get_prop data ''message'' = Inr msg"
    using claim_try_conflict [OF that, of wh a] by (simp add: run)
  have p2: "remote_failed (remote ?req) \<or> remote ?req = Some \<lparr>status = 409, json_body = Some JNull\<rparr>"
    if s: "store_calls w (snd (new_claim remote now (Some a) (Some wh) descr w)) \<noteq> []"
  proof (cases "claim_try (remote ?req) wh a")
    case (Inl e)
    from claim_try_Inl [OF Inl] show ?thesis by auto
  next
    case (Inr result)
    then have "store_calls w (snd (new_claim remote now (Some a) (Some wh) descr w)) = []"
      by (simp add: run store_calls_def)
    with s show ?thesis by simp
  qed
  from p1 p2 show ?thesis by blast
qed


theorem claim_conflict_surfaced_without_fallback_witness:
  "''Y'' \<noteq> [] \<and> ''module-A'' \<noteq> []
   \<and> answering 409 claim_conflict_body (claim_request ''module-A'' ''Y'' None)
       = Some \<lparr>status = 409, json_body = Some claim_conflict_body\<rparr>
   \<and> get_prop claim_conflict_body ''claimedBy'' = Inr (Some (JStr ''X''))
   \<and> get_prop claim_conflict_body ''message'' = Inr (Some (JStr ''already claimed''))
   \<and> new_claim (answering 409 claim_conflict_body) 6 (Some ''Y'') (Some ''module-A'') None world_X =
       (JsonText (JObj [(''claimed'', JBool False), (''by'', JStr ''X''), (''message'', JStr ''already claimed'')]),
        world_X\<lparr>calls := [Fetch (claim_request ''module-A'' ''Y'' None)]\<rparr>)
   \<and> store_calls world_X (snd (new_claim unreachable 6 (Some ''Y'') (Some ''module-A'') None world_X)) \<noteq> []
   \<and> remote_failed (unreachable (claim_request ''module-A'' ''Y'' None))"
proof -
  have h1: "''Y'' \<noteq> []" and h2: "''module-A'' \<noteq> []" by simp_all
  have r: "answering 409 claim_conflict_body (claim_request ''module-A'' ''Y'' None)
       = Some \<lparr>status = 409, json_body = Some claim_conflict_body\<rparr>"
    by (simp add: answering_def)
  have g1: "get_prop claim_conflict_body ''claimedBy'' = Inr (Some (JStr ''X''))"
    and g2: "get_prop claim_conflict_body ''message'' = Inr (Some (JStr ''already claimed''))"
    by (simp_all add: claim_conflict_body_def)
  from claim_conflict_surfaced_without_fallback [OF h1 h2,
      where remote = "answering 409 claim_conflict_body" and descr = None
        and res = "\<lparr>status = 409, json_body = Some claim_conflict_body\<rparr>"
        and data = claim_conflict_body and owner = "Some (JStr ''X'')"
        and msg = "Some (JStr ''already claimed'')" and now = 6 and w = world_X] r g1 g2
  have c1: "new_claim (answering 409 claim_conflict_body) 6 (Some ''Y'') (Some ''module-A'') None world_X =
       (JsonText (JObj [(''claimed'', JBool False), (''by'', JStr ''X''), (''message'', JStr ''already claimed'')]),
        world_X\<lparr>calls := [Fetch (claim_request ''module-A'' ''Y'' None)]\<rparr>)"
    by (simp add: stringify_def world_X_def)
  have s: "store_calls world_X (snd (new_claim unreachable 6 (Some ''Y'') (Some ''module-A'') None world_X)) \<noteq> []"
    by (simp add: new_claim_run unreachable_def claim_try_def res_json_def and_then_def claim_local_def
        checkClaim_def check_def is_stale_def world_X_def claim_of_X_def store_call_def store_calls_def
        claim.defs checked_claim.defs Let_def)
  from claim_conflict_surfaced_without_fallback [OF h1 h2,
      where remote = unreachable and descr = None and now = 6 and w = world_X] s
  have c2: "remote_failed (unreachable (claim_request ''module-A'' ''Y'' None))"
    by (simp add: unreachable_def)
  from h1 h2 r g1 g2 c1 s c2 show ?thesis by blast
qed

text \<open>
  C9. A claim without \<open>agentId\<close> or \<open>what\<close>, and a task creation without \<open>title\<close> or
  \<open>createdBy\<close> (missing or empty), returns the text naming the required fields and
  the state it was given: no \<open>fetch\<close>, no store call, no change of the store.
\<close>

theorem missing_field_rejected_before_backend:
  "(falsy agentId \<or> falsy what \<longrightarrow>
      new_claim remote now agentId what descr w = (Text ''agentId and what required'', w))
   \<and> (falsy (arg_title args) \<or> falsy (arg_createdBy args) \<longrightarrow>
      new_task_create remote now args w = (Text ''title and createdBy required'', w))"
  by (simp add: new_claim_def new_task_create_def)

theorem missing_field_rejected_before_backend_witness:
  "falsy None \<and> falsy (Some [])
   \<and> new_claim unreachable 6 None (Some ''module-A'') None world_X = (Text ''agentId and what required'', world_X)
   \<and> new_task_create unreachable 6
        \<lparr>arg_title = Some [], arg_description = None, arg_priority = None, arg_createdBy = Some ''X'',
         arg_assignee = None, arg_tags = None\<rparr> world_X
       = (Text ''title and createdBy required'', world_X)"
proof -
  have f: "falsy None" "falsy (Some [])" by (simp_all add: falsy_def)
  from missing_field_rejected_before_backend
    [where agentId = None and what = "Some ''module-A''" and remote = unreachable and now = 6
       and descr = None and w = world_X
       and args = "\<lparr>arg_title = Some [], arg_description = None, arg_priority = None,
                    arg_createdBy = Some ''X'', arg_assignee = None, arg_tags = None\<rparr>"] f
  show ?thesis by simp
qed

text \<open>
  C4, as stated, fails: the store holds the non-stale claim of \<open>module-A\<close> by \<open>X\<close>, and
  the backend answers the claim attempt of \<open>Y\<close> with 409, naming \<open>X\<close>. The conflict
  result reports the owner \<open>X\<close> but has no claim time (no \<open>since\<close>): the handler
  passes on \<open>claimedBy\<close> and \<open>message\<close> only.
\<close>

theorem remote_conflict_has_no_claim_time:
  "map_of (claims (store world_X)) ''module-A'' = Some claim_of_X
   \<and> claim_by claim_of_X = ''X''
   \<and> \<not> is_stale 6 (store world_X) claim_of_X
   \<and> result_prop (fst (new_claim (answering 409 claim_conflict_body) 6 (Some ''Y'') (Some ''module-A'') None world_X))
        ''by'' = Some (JStr ''X'')
   \<and> result_prop (fst (new_claim (answering 409 claim_conflict_body) 6 (Some ''Y'') (Some ''module-A'') None world_X))
        ''since'' = None"
  by (simp add: new_claim_run claim_try_def res_json_def and_then_def answering_def claim_conflict_body_def
      world_X_def claim_of_X_def is_stale_def result_prop_def stringify_def)

text \<open>
  C4, amended. While the store holds a non-stale claim of \<open>what\<close> by \<open>X\<close>, a claim
  attempt by another agent \<open>Y\<close> leaves the store as it is, whatever the backend
  answers: the holder is never overwritten. When the remote call fails, the attempt
  returns the conflict result with the owner \<open>X\<close> and the claim time; when the backend
  answers 409, the conflict result has the owner and the message the backend names,
  and no claim time.
\<close>

theorem conflicting_claim_keeps_holder:
  assumes "map_of (claims (store w)) wh = Some c" and "claim_by c \<noteq> y"
    and "\<not> is_stale now (store w) c" and "y \<noteq> []" and "wh \<noteq> []"
  shows "store (snd (new_claim remote now (Some y) (Some wh) descr w)) = store w
       \<and> (remote_failed (remote (claim_request wh y descr)) \<longrightarrow>
            fst (new_claim remote now (Some y) (Some wh) descr w) =
              JsonText (stringify [(''claimed'', Some (JBool False)), (''by'', Some (JStr (claim_by c))),
                                   (''since'', Some (JNum (claim_since c)))]))
       \<and> (remote (claim_request wh y descr) = Some \<lparr>status = 409, json_body = Some (JObj kvs)\<rparr> \<longrightarrow>
            fst (new_claim remote now (Some y) (Some wh) descr w) =
              JsonText (stringify [(''claimed'', Some (JBool False)), (''by'', map_of kvs ''claimedBy''),
                                   (''message'', map_of kvs ''message'')]))"
proof -
  let ?req = "claim_request wh y descr"
  let ?w1 = "w\<lparr>calls := calls w @ [Fetch ?req]\<rparr>"
  have run: "new_claim remote now (Some y) (Some wh) descr w =
     (case claim_try (remote ?req) wh y of
        Inr result \<Rightarrow> (result, ?w1) | Inl err \<Rightarrow> claim_local now wh y descr ?w1)"
    using assms(4,5) by (rule new_claim_run)
  have loc: "claim_local now wh y descr ?w1 =
     (JsonText (stringify [(''claimed'', Some (JBool False)), (''by'', Some (JStr (claim_by c))),
                           (''since'', Some (JNum (claim_since c)))]),
      ?w1\<lparr>calls := calls ?w1 @ [StoreCall ''checkClaim'']\<rparr>)"
    using assms(1,2,3) by (intro claim_local_conflict) simp_all
  have p1: "store (snd (new_claim remote now (Some y) (Some wh) descr w)) = store w"
    by (cases "claim_try (remote ?req) wh y") (simp_all add: run loc)
  have p2: "fst (new_claim remote now (Some y) (Some wh) descr w) =
              JsonText (stringify [(''claimed'', Some (JBool False)), (''by'', Some (JStr (claim_by c))),
                                   (''since'', Some (JNum (claim_since c)))])"
    if "remote_failed (remote ?req)"
  proof -
    from claim_try_failed [OF that] obtain e where "claim_try (remote ?req) wh y = Inl e" by blast
    then show ?thesis by (simp add: run loc)
  qed
  have p3: "fst (new_claim remote now (Some y) (Some wh) descr w) =
              JsonText (stringify [(''claimed'', Some (JBool False)), (''by'', map_of kvs ''claimedBy''),
                                   (''message'', map_of kvs ''message'')])"
    if r: "remote ?req = Some \<lparr>status = 409, json_body = Some (JObj kvs)\<rparr>"
    using claim_try_conflict [OF r, of "JObj kvs" "map_of kvs ''claimedBy''" "map_of kvs ''message''" wh y]
    by (simp add: run)
  from p1 p2 p3 show ?thesis by blast
qed

lemmas eval_defs =
  new_claim_run claim_try_def res_json_def and_then_def claim_local_def checkClaim_def check_def
  is_stale_def store_claim_def install_claim_def store_call_def fetch_def stringify_def result_prop_def
  answering_def unreachable_def claim_conflict_body_def world_X_def claim_of_X_def
  claim.defs checked_claim.defs Let_def remote_failed_def falsy_def or_default_def

theorem conflicting_claim_keeps_holder_witness:
  "map_of (claims (store world_X)) ''module-A'' = Some claim_of_X
   \<and> claim_by claim_of_X \<noteq> ''Y'' \<and> \<not> is_stale 6 (store world_X) claim_of_X
   \<and> ''Y'' \<noteq> [] \<and> ''module-A'' \<noteq> []
   \<and> remote_failed (unreachable (claim_request ''module-A'' ''Y'' None))
   \<and> store (snd (new_claim unreachable 6 (Some ''Y'') (Some ''module-A'') None world_X)) = store world_X
   \<and> fst (new_claim unreachable 6 (Some ''Y'') (Some ''module-A'') None world_X) =
       JsonText (JObj [(''claimed'', JBool False), (''by'', JStr ''X''), (''since'', JNum 5)])
   \<and> fst (new_claim (answering 409 claim_conflict_body) 6 (Some ''Y'') (Some ''module-A'') None world_X) =
       JsonText (JObj [(''claimed'', JBool False), (''by'', JStr ''X''), (''message'', JStr ''already claimed'')])"
proof -
  have h1: "map_of (claims (store world_X)) ''module-A'' = Some claim_of_X"
    by (simp add: world_X_def)
  have h2: "claim_by claim_of_X \<noteq> ''Y''" by (simp add: claim_of_X_def)
  have h3: "\<not> is_stale 6 (store world_X) claim_of_X"
    by (simp add: is_stale_def world_X_def claim_of_X_def)
  have h4: "''Y'' \<noteq> []" and h5: "''module-A'' \<noteq> []" by simp_all
  have f: "remote_failed (unreachable (claim_request ''module-A'' ''Y'' None))"
    by (simp add: remote_failed_def unreachable_def)
  have r: "answering 409 claim_conflict_body (claim_request ''module-A'' ''Y'' None) =
      Some \<lparr>status = 409, json_body = Some (JObj [(''claimed'', JBool False), (''claimedBy'', JStr ''X''),
                                                    (''message'', JStr ''already claimed'')])\<rparr>"
    by (simp add: answering_def claim_conflict_body_def)
  from conflicting_claim_keeps_holder [OF h1 h2 h3 h4 h5, where remote = unreachable and descr = None] f
  have c1: "store (snd (new_claim unreachable 6 (Some ''Y'') (Some ''module-A'') None world_X)) = store world_X"
    and c2: "fst (new_claim unreachable 6 (Some ''Y'') (Some ''module-A'') None world_X) =
       JsonText (JObj [(''claimed'', JBool False), (''by'', JStr ''X''), (''since'', JNum 5)])"
    by (simp_all add: stringify_def claim_of_X_def)
  from conflicting_claim_keeps_holder [OF h1 h2 h3 h4 h5,
      where remote = "answering 409 claim_conflict_body" and descr = None
        and kvs = "[(''claimed'', JBool False), (''claimedBy'', JStr ''X''), (''message'', JStr ''already claimed'')]"] r
  have c3: "fst (new_claim (answering 409 claim_conflict_body) 6 (Some ''Y'') (Some ''module-A'') None world_X) =
       JsonText (JObj [(''claimed'', JBool False), (''by'', JStr ''X''), (''message'', JStr ''already claimed'')])"
    by (simp add: stringify_def)
  from h1 h2 h3 h4 h5 f c1 c2 c3 show ?thesis by blast
qed



text \<open>
  C3, at the failing input: \<open>X\<close> holds \<open>module-A\<close>, \<open>Y\<close> releases it, and the backend
  answers 200 with \<open>{released: false}\<close>. The handler reads the body and reports
  \<open>released: true\<close>.
\<close>

theorem remote_release_always_reports_true:
  "map_of (claims (store world_X)) ''module-A'' = Some claim_of_X
   \<and> claim_by claim_of_X = ''X''
   \<and> new_release (answering 200 (JObj [(''released'', JBool False)])) (Some ''Y'') (Some ''module-A'') world_X =
       (JsonText (JObj [(''released'', JBool True), (''what'', JStr ''module-A''), (''by'', JStr ''Y'')]),
        world_X\<lparr>calls := [Fetch (release_request ''module-A'' ''Y'')]\<rparr>)"
  by (simp add: new_release_def eval_defs)

text \<open>
  The \<open>catch\<close> branch of the same handler reports what the store did: false for \<open>Y\<close>,
  true for the owner \<open>X\<close>, whose claim is removed.
\<close>

lemma local_release_reports_removal:
  "new_release unreachable (Some ''Y'') (Some ''module-A'') world_X =
     (JsonText (JObj [(''released'', JBool False), (''what'', JStr ''module-A''), (''by'', JStr ''Y'')]),
      world_X\<lparr>calls := [Fetch (release_request ''module-A'' ''Y''), StoreCall ''releaseClaim'']\<rparr>)
   \<and> fst (new_release unreachable (Some ''X'') (Some ''module-A'') world_X) =
       JsonText (JObj [(''released'', JBool True), (''what'', JStr ''module-A''), (''by'', JStr ''X'')])
   \<and> claims (store (snd (new_release unreachable (Some ''X'') (Some ''module-A'') world_X))) = []"
  by (simp add: new_release_def releaseClaim_def remove_key_def eval_defs)

text \<open>
  C2, at the failing input: the backend answers the lock request of \<open>Y\<close> with 409 and
  \<open>{error}\<close>, the path being locked by \<open>X\<close>. The handler does not look at the status:
  it returns \<open>success: true\<close>, with no lock, since \<open>data.lock\<close> is undefined.
\<close>

theorem remote_lock_conflict_reported_as_success:
  "new_lock (answering 409 (JObj [(''error'', JStr ''Resource is locked by X'')])) 6 ''src/a.ts'' ''Y'' None None
     world_X =
     (JsonText (JObj [(''success'', JBool True)]),
      world_X\<lparr>calls := [Fetch (lock_request ''src/a.ts'' ''Y'' None)]\<rparr>)"
  by (simp add: new_lock_def lock_try_def eval_defs)

text \<open>
  The \<open>catch\<close> branch of the same handler tests \<open>'error' in result\<close>: after \<open>X\<close> locked
  the path in the local store, the attempt of \<open>Y\<close> returns \<open>success: false\<close> and the
  error naming \<open>X\<close>.
\<close>

lemma local_lock_conflict_reported_as_failure:
  "fst (new_lock unreachable 7 ''src/a.ts'' ''Y'' None None
          (snd (new_lock unreachable 6 ''src/a.ts'' ''X'' None None world_X))) =
     JsonText (JObj [(''success'', JBool False), (''error'', JStr (lock_error ''X''))])"
  by (simp add: new_lock_def lock_try_def lock_local_def acquireLock_def eval_defs)

text \<open>
  C6, at the failing input: the backend holds a fresh and a stale claim and would
  return both for \<open>includeStale=true\<close>. The handler is called with \<open>includeStale\<close>
  set, sends \<open>GET /api/claims\<close> without any query parameter and returns the answer as
  it is: the stale claim is left out, exactly as when \<open>includeStale\<close> is not set.
\<close>

theorem remote_list_claims_ignores_includeStale:
  "new_list_claims claims_backend 6 (Some True) world_X =
     (JsonText (JObj [(''claims'', JArr [fresh_claim_json]), (''count'', JNum 1)]),
      world_X\<lparr>calls := [Fetch list_claims_request]\<rparr>)
   \<and> new_list_claims claims_backend 6 (Some True) world_X = new_list_claims claims_backend 6 None world_X
   \<and> req_query list_claims_request = []
   \<and> claims_backend (list_claims_request\<lparr>req_query := [(''includeStale'', ''true'')]\<rparr>) =
       Some \<lparr>status = 200,
             json_body = Some (JObj [(''claims'', JArr [fresh_claim_json, stale_claim_json]), (''count'', JNum 2)])\<rparr>"
  by (simp add: new_list_claims_def list_claims_request_def claims_backend_def eval_defs)

text \<open>
  The \<open>catch\<close> branch of the same handler passes \<open>args.includeStale\<close> to the store: the
  stale claim is listed when it is set and left out when it is not.
\<close>

lemma local_list_claims_honours_includeStale:
  "fst (new_list_claims unreachable 1800006 (Some True) world_X) =
     JsonText (JObj [(''claims'', JArr [JObj [(''what'', JStr ''module-A''), (''by'', JStr ''X''),
                                               (''since'', JNum 5), (''stale'', JBool True)]]),
                     (''count'', JNum 1)])
   \<and> fst (new_list_claims unreachable 1800006 None world_X) =
     JsonText (JObj [(''claims'', JArr []), (''count'', JNum 0)])"
  by (simp add: new_list_claims_def list_claims_request_def listClaims_def claim_json_def eval_defs)

end
